theory Spec2Isabelle
  imports Main "HOL-Library.AList" "HOL-Library.Sublist"
begin

section \<open>Python strings\<close>

text \<open>
  A Python \<open>str\<close> is modelled as a \<open>string\<close>. A \<open>char\<close> \<open>c\<close> stands for the character
  with code point \<open>of_char c\<close>, so the model covers the code points 0 to 255: ASCII and
  the Latin-1 supplement, which holds every accented letter of the Spanish labels the
  program looks for. The methods \<open>str.isspace\<close>, \<open>str.lower\<close>, \<open>str.strip\<close>,
  \<open>str.split\<close> and \<open>str.replace\<close> are written out below for that range.
\<close>

abbreviation NL :: char where "NL \<equiv> CHR 0x0A"
abbreviation DQ :: char where "DQ \<equiv> CHR 0x22"
abbreviation COLON :: char where "COLON \<equiv> CHR 0x3A"
abbreviation COMMA :: char where "COMMA \<equiv> CHR 0x2C"

text \<open>The characters below U+0100 that \<open>str.isspace\<close> accepts: tab to carriage return,
  the four information separators, space, next line and no-break space.\<close>

definition isspace :: "char \<Rightarrow> bool" where
  "isspace c = (c \<in> set [CHR 0x09, CHR 0x0A, CHR 0x0B, CHR 0x0C, CHR 0x0D,
                          CHR 0x1C, CHR 0x1D, CHR 0x1E, CHR 0x1F, CHR 0x20,
                          CHR 0x85, CHR 0xA0])"

text \<open>\<open>str.lower\<close> below U+0100: the letters A to Z and the Latin-1 capitals U+00C0 to
  U+00DE, the multiplication sign U+00D7 excepted, move up by 32; nothing else changes.\<close>

definition lower_char :: "char \<Rightarrow> char" where
  "lower_char c =
     (let n = (of_char c :: nat)
      in if (65 \<le> n \<and> n \<le> 90) \<or> (192 \<le> n \<and> n \<le> 222 \<and> n \<noteq> 215)
         then char_of (n + 32) else c)"

definition str_lower :: "string \<Rightarrow> string" where
  "str_lower s = map lower_char s"

text \<open>\<open>s.strip()\<close>: leading and trailing whitespace removed.\<close>

definition str_strip :: "string \<Rightarrow> string" where
  "str_strip s = rev (dropWhile isspace (rev (dropWhile isspace s)))"

text \<open>\<open>s.split(sep)\<close> for a separator that is not empty (every call of the program passes
  a literal of one or two characters): the occurrences of \<open>sep\<close> are found from the left
  and do not overlap; the pieces between them are returned, empty ones included, so the
  result is never the empty list.\<close>

function str_split :: "string \<Rightarrow> string \<Rightarrow> string list" where
  "str_split sep [] = [[]]"
| "str_split sep (c # cs) =
     (if sep \<noteq> [] \<and> prefix sep (c # cs)
      then [] # str_split sep (drop (length sep) (c # cs))
      else (case str_split sep cs of
              [] \<Rightarrow> [[c]]
            | p # ps \<Rightarrow> (c # p) # ps))"
  by pat_completeness auto
termination
  by (relation "measure (\<lambda>(sep, s). length s)") auto

text \<open>\<open>s.split(sep, maxsplit)\<close> for a one-character separator and \<open>maxsplit \<ge> 0\<close>.\<close>

fun str_split_max :: "char \<Rightarrow> nat \<Rightarrow> string \<Rightarrow> string list" where
  "str_split_max sep n [] = [[]]"
| "str_split_max sep 0 (c # cs) = [c # cs]"
| "str_split_max sep (Suc n) (c # cs) =
     (if c = sep then [] # str_split_max sep n cs
      else (case str_split_max sep (Suc n) cs of
              [] \<Rightarrow> [[c]]
            | p # ps \<Rightarrow> (c # p) # ps))"

text \<open>\<open>s.replace(old, new)\<close> for a one-character \<open>old\<close>.\<close>

definition str_replace :: "char \<Rightarrow> string \<Rightarrow> string \<Rightarrow> string" where
  "str_replace old new s = concat (map (\<lambda>c. if c = old then new else [c]) s)"

section \<open>Exceptions, lists and dictionaries\<close>

datatype py_error = IndexError | ValueError

text \<open>\<open>xs[i]\<close>: a negative index counts from the end; out of range raises.\<close>

definition list_get :: "'a list \<Rightarrow> int \<Rightarrow> py_error + 'a" where
  "list_get xs i =
     (if 0 \<le> i \<and> i < int (length xs) then Inr (xs ! nat i)
      else if i < 0 \<and> - int (length xs) \<le> i then Inr (xs ! nat (int (length xs) + i))
      else Inl IndexError)"

text \<open>\<open>xs.index(x)\<close>: the first position of \<open>x\<close>; raises when \<open>x\<close> is absent.\<close>

fun list_index :: "'a list \<Rightarrow> 'a \<Rightarrow> py_error + int" where
  "list_index [] x = Inl ValueError"
| "list_index (y # ys) x =
     (if y = x then Inr 0
      else (case list_index ys x of Inl e \<Rightarrow> Inl e | Inr i \<Rightarrow> Inr (i + 1)))"

text \<open>A \<open>for\<close> loop whose body may raise: the first exception ends the loop.\<close>

fun for_loop :: "('s \<Rightarrow> 'a \<Rightarrow> py_error + 's) \<Rightarrow> 's \<Rightarrow> 'a list \<Rightarrow> py_error + 's" where
  "for_loop body s [] = Inr s"
| "for_loop body s (x # xs) =
     (case body s x of Inl e \<Rightarrow> Inl e | Inr s' \<Rightarrow> for_loop body s' xs)"

text \<open>
  A \<open>dict\<close> of strings is an association list in insertion order. \<open>d[k] = v\<close> is
  \<open>AList.update k v d\<close>: an existing key keeps its place and takes the new value, a new
  key goes to the end. \<open>d.get(k, default)\<close> is \<open>dict_get\<close>; \<open>if d:\<close> is \<open>d \<noteq> []\<close>.
\<close>

type_synonym driver = "(string \<times> string) list"

definition dict_get :: "driver \<Rightarrow> string \<Rightarrow> string \<Rightarrow> string" where
  "dict_get d k dflt = (case map_of d k of None \<Rightarrow> dflt | Some v \<Rightarrow> v)"

section \<open>parse_driver_v_output\<close>

text \<open>The table \<open>header_map\<close> of the source; U+00F3 is the letter o with acute accent.\<close>

definition header_map :: "(string \<times> string) list" where
  "header_map =
     [(''Nombre de m'' @ [CHR 0xF3] @ ''dulo'', ''ModuleName''),
      (''Module Name'', ''ModuleName''),
      (''Nombre a mostrar'', ''DisplayName''),
      (''Display Name'', ''DisplayName''),
      (''Descripci'' @ [CHR 0xF3] @ ''n del controlador'', ''Description''),
      (''Driver Description'', ''Description''),
      (''Tipo de controlador'', ''Driver Type''),
      (''Tipo'', ''Driver Type''),
      (''Estado'', ''State''),
      (''PnP Device ID'', ''PnPDeviceID'')]"

text \<open>The body of the inner loop: one line of a block, applied to the dictionary built
  so far. Unpacking \<open>key, value = line.split(':', 1)\<close> raises unless there are two pieces.\<close>

definition parse_line :: "driver \<Rightarrow> string \<Rightarrow> py_error + driver" where
  "parse_line driver line =
     (if COLON \<in> set line
      then (case str_split_max COLON 1 line of
              [key, value] \<Rightarrow>
                (let key = str_strip key;
                     normalized_key = dict_get header_map key key
                 in Inr (AList.update normalized_key (str_strip value) driver))
            | _ \<Rightarrow> Inl ValueError)
      else Inr driver)"

text \<open>The inner loop over the lines of one block, from the empty dictionary.\<close>

definition build_driver :: "string \<Rightarrow> py_error + driver" where
  "build_driver record = for_loop parse_line [] (str_split [NL] (str_strip record))"

text \<open>The body of the outer loop: one block, applied to the list of drivers so far.\<close>

definition parse_record :: "driver list \<Rightarrow> string \<Rightarrow> py_error + driver list" where
  "parse_record drivers record =
     (case build_driver record of
        Inl e \<Rightarrow> Inl e
      | Inr driver \<Rightarrow> if driver \<noteq> [] then Inr (drivers @ [driver]) else Inr drivers)"

text \<open>The argument is \<open>None\<close> when the command failed; \<open>not output\<close> holds for \<open>None\<close> and
  for the empty string.\<close>

definition parse_driver_v_output :: "string option \<Rightarrow> py_error + driver list" where
  "parse_driver_v_output output =
     (case output of
        None \<Rightarrow> Inr []
      | Some s \<Rightarrow>
          if s = [] then Inr []
          else for_loop parse_record [] (str_split [NL, NL] (str_strip s)))"

section \<open>The filter of main\<close>

text \<open>\<open>[d for d in all_drivers if d.get('State', '').lower() == 'stopped']\<close>\<close>

definition stopped_drivers :: "driver list \<Rightarrow> driver list" where
  "stopped_drivers all_drivers =
     [d \<leftarrow> all_drivers. str_lower (dict_get d ''State'' []) = ''stopped'']"

section \<open>parse_signed_driver_output\<close>

text \<open>\<open>[p.strip().replace('"', '') for p in line.split(',')]\<close>, used for the header row and for
  every data row: each piece is stripped of whitespace first, then loses every double
  quote.\<close>

definition clean_field :: "string \<Rightarrow> string" where
  "clean_field p = str_replace DQ [] (str_strip p)"

definition clean_fields :: "string \<Rightarrow> string list" where
  "clean_fields line = map clean_field (str_split [COMMA] line)"

text \<open>The Spanish label; U+00E1 is the letter a with acute accent.\<close>

definition esta_firmado :: string where
  "esta_firmado = ''Est'' @ [CHR 0xE1] @ '' firmado''"

definition warning_text :: string where
  "warning_text = ''Warning: Could not determine the signature status column in ''
     @ [CHR 0x27] @ ''driverquery /si'' @ [CHR 0x27] @ '' output.''"

text \<open>Lines 119 to 123: the index of the signature column, or \<open>-1\<close>.\<close>

definition find_is_signed_index :: "string list \<Rightarrow> py_error + int" where
  "find_is_signed_index header =
     (if ''IsSigned'' \<in> set header then list_index header ''IsSigned''
      else if esta_firmado \<in> set header then list_index header esta_firmado
      else Inr (- 1))"

text \<open>The body of the loop over the data rows, applied to the list \<open>unsigned_drivers\<close>
  built so far.\<close>

definition process_row :: "int \<Rightarrow> string list \<Rightarrow> string \<Rightarrow> py_error + string list" where
  "process_row is_signed_index unsigned_drivers line =
     (if str_strip line \<noteq> []
      then (let parts = clean_fields line
            in if int (length parts) > is_signed_index
               then (case list_get parts is_signed_index of
                       Inl e \<Rightarrow> Inl e
                     | Inr field \<Rightarrow>
                         (let signature_status = str_lower field
                          in if signature_status = ''false''
                             then (case list_get parts 0 of
                                     Inl e \<Rightarrow> Inl e
                                   | Inr device_name \<Rightarrow> Inr (unsigned_drivers @ [device_name]))
                             else Inr unsigned_drivers))
               else Inr unsigned_drivers)
      else Inr unsigned_drivers)"

text \<open>The result is the pair of the lines printed and the list returned.\<close>

definition parse_signed_driver_output ::
    "string option \<Rightarrow> py_error + (string list \<times> string list)" where
  "parse_signed_driver_output output =
     (case output of
        None \<Rightarrow> Inr ([], [])
      | Some s \<Rightarrow>
          if s = [] then Inr ([], [])
          else
            (let lines = str_split [NL] (str_strip s)
             in if length lines < 2 then Inr ([], [])
                else
                  (case list_get lines 0 of
                     Inl e \<Rightarrow> Inl e
                   | Inr line0 \<Rightarrow>
                       (let header = clean_fields line0
                        in (case find_is_signed_index header of
                              Inl e \<Rightarrow> Inl e
                            | Inr is_signed_index \<Rightarrow>
                                if is_signed_index = - 1
                                then (if length header > 1
                                      then (case for_loop (process_row 1) [] (drop 1 lines) of
                                              Inl e \<Rightarrow> Inl e
                                            | Inr unsigned_drivers \<Rightarrow>
                                                Inr ([warning_text], unsigned_drivers))
                                      else Inr ([warning_text], []))
                                else (case for_loop (process_row is_signed_index) []
                                             (drop 1 lines) of
                                        Inl e \<Rightarrow> Inl e
                                      | Inr unsigned_drivers \<Rightarrow>
                                          Inr ([], unsigned_drivers)))))))"

section \<open>generate_report\<close>

text \<open>\<open>str(n)\<close> for a length.\<close>

fun str_of_nat :: "nat \<Rightarrow> string" where
  "str_of_nat n =
     (if n < 10 then [char_of (48 + n)]
      else str_of_nat (n div 10) @ [char_of (48 + n mod 10)])"

declare str_of_nat.simps [simp del]

text \<open>The three writes for one stopped driver.\<close>

definition stopped_entry :: "driver \<Rightarrow> string" where
  "stopped_entry driver =
     (let name = dict_get driver ''ModuleName'' ''N/A'';
          display_name = dict_get driver ''DisplayName'' ''N/A'';
          pnp_id = dict_get driver ''PnPDeviceID'' ''N/A''
      in ''  - Name: '' @ name @ [NL]
         @ ''    Display Name: '' @ display_name @ [NL]
         @ ''    PnP Device ID: '' @ pnp_id @ [NL, NL])"

text \<open>Everything written to the file, in order. \<open>now\<close> is the text of
  \<open>datetime.now().strftime('%Y-%m-%d %H:%M:%S')\<close>.\<close>

definition report_text :: "string \<Rightarrow> driver list \<Rightarrow> string list \<Rightarrow> string" where
  "report_text now stopped unsigned =
     ''Driver Analysis Report'' @ [NL]
     @ ''======================'' @ [NL]
     @ ''Generated on: '' @ now @ [NL, NL]
     @ ''--- Summary ---'' @ [NL]
     @ ''Found '' @ str_of_nat (length stopped) @ '' stopped drivers.'' @ [NL]
     @ ''Found '' @ str_of_nat (length unsigned) @ '' unsigned drivers.'' @ [NL]
     @ ''Note: Not all stopped or unsigned drivers indicate a problem. This report is for informational purposes.''
     @ [NL, NL]
     @ (if stopped \<noteq> []
        then ''--- Stopped Drivers ---'' @ [NL] @ concat (map stopped_entry stopped)
        else ''--- Stopped Drivers ---'' @ [NL] @ ''No stopped drivers found.'' @ [NL, NL])
     @ (if unsigned \<noteq> []
        then ''--- Unsigned Drivers ---'' @ [NL]
             @ concat (map (\<lambda>driver_name. ''  - '' @ driver_name @ [NL]) unsigned) @ [NL]
        else ''--- Unsigned Drivers ---'' @ [NL] @ ''No unsigned drivers found.'' @ [NL, NL])
     @ ''--- Recommendations ---'' @ [NL]
     @ ''1. Check Windows Update for the latest official drivers.'' @ [NL]
     @ ''2. For specific hardware (e.g., graphics cards), visit the manufacturer''
     @ [CHR 0x27] @ ''s official website (NVIDIA, AMD, Intel).'' @ [NL]
     @ ''3. Do NOT download drivers from third-party websites.'' @ [NL]"

text \<open>
  The files are a map from the path given to \<open>open\<close> to the content. The function has the
  two parameters of the source; \<open>files\<close> and \<open>now\<close> are the state it reads. The path is the
  local constant \<open>report_path\<close>; opening with mode \<open>"w"\<close> creates the file or replaces its
  content. The line printed on the console is not part of the model.
\<close>

definition report_path :: string where
  "report_path = ''report.txt''"

definition generate_report ::
    "(string \<rightharpoonup> string) \<Rightarrow> string \<Rightarrow> driver list \<Rightarrow> string list \<Rightarrow> (string \<rightharpoonup> string)" where
  "generate_report files now stopped unsigned =
     files(report_path \<mapsto> report_text now stopped unsigned)"

section \<open>Notions used to state the properties\<close>

text \<open>What a line with a colon contributes: the text before the first colon, stripped and
  looked up in \<open>header_map\<close>, and the text after the first colon, stripped.\<close>

definition line_key :: "string \<Rightarrow> string" where
  "line_key line =
     (let key = str_strip (takeWhile (\<lambda>c. c \<noteq> COLON) line) in dict_get header_map key key)"

definition line_value :: "string \<Rightarrow> string" where
  "line_value line = str_strip (tl (dropWhile (\<lambda>c. c \<noteq> COLON) line))"

definition set_field :: "driver \<Rightarrow> string \<Rightarrow> driver" where
  "set_field driver line =
     (if COLON \<in> set line then AList.update (line_key line) (line_value line) driver
      else driver)"

text \<open>The dictionary of a block, and whether one of its lines holds a colon.\<close>

definition driver_of :: "string \<Rightarrow> driver" where
  "driver_of record = foldl set_field [] (str_split [NL] (str_strip record))"

definition has_colon_line :: "string \<Rightarrow> bool" where
  "has_colon_line block = list_ex (\<lambda>line. COLON \<in> set line) (str_split [NL] block)"

text \<open>The rows of the table: the lines after the first that are not blank, each cut at
  its commas. A row is selected for column \<open>i\<close> when it has a field there whose cleaned,
  lower-cased text is \<open>false\<close>; its device name is its first field, cleaned.\<close>

definition raw_rows :: "string \<Rightarrow> string list list" where
  "raw_rows s =
     map (str_split [COMMA]) [l \<leftarrow> drop 1 (str_split [NL] (str_strip s)). str_strip l \<noteq> []]"

definition selected :: "nat \<Rightarrow> string list \<Rightarrow> bool" where
  "selected i raw = (i < length raw \<and> str_lower (clean_field (raw ! i)) = ''false'')"

definition device_name_of :: "string list \<Rightarrow> string" where
  "device_name_of raw = clean_field (hd raw)"

definition unsigned_at :: "nat \<Rightarrow> string \<Rightarrow> string list" where
  "unsigned_at i s = map device_name_of [raw \<leftarrow> raw_rows s. selected i raw]"

text \<open>The header row, cleaned, and the column the parser settles on: the first place of
  a known label, else the second column when there is one.\<close>

definition header_of :: "string \<Rightarrow> string list" where
  "header_of s = clean_fields (hd (str_split [NL] (str_strip s)))"

definition first_index :: "'a list \<Rightarrow> 'a \<Rightarrow> nat" where
  "first_index xs x = length (takeWhile (\<lambda>y. y \<noteq> x) xs)"

definition signed_column :: "string list \<Rightarrow> nat option" where
  "signed_column header =
     (if ''IsSigned'' \<in> set header then Some (first_index header ''IsSigned'')
      else if esta_firmado \<in> set header then Some (first_index header esta_firmado)
      else if length header > 1 then Some 1
      else None)"

text \<open>The blocks that are not blank, stripped: what is left of a list of blocks once the
  blank ones are ignored.\<close>

definition nonblank :: "string list \<Rightarrow> string list" where
  "nonblank ss = [b \<leftarrow> map str_strip ss. b \<noteq> []]"

text \<open>
  The fields of a line as the table format has them: comma-separated and optionally
  quoted, so that a comma between double quotes belongs to its field. The quotes stay
  in the field. \<open>quoted_comma\<close> tells whether a line has such a comma; on a line with
  none, the fields are the pieces between the commas.
\<close>

fun csv_split :: "bool \<Rightarrow> string \<Rightarrow> string list" where
  "csv_split quoted [] = [[]]"
| "csv_split quoted (c # cs) =
     (if c = COMMA \<and> \<not> quoted then [] # csv_split quoted cs
      else (case csv_split (if c = DQ then \<not> quoted else quoted) cs of
              [] \<Rightarrow> [[c]]
            | p # ps \<Rightarrow> (c # p) # ps))"

definition csv_fields :: "string \<Rightarrow> string list" where
  "csv_fields line = csv_split False line"



section \<open>Auxiliary facts\<close>

subsection \<open>Loops and strings\<close>

lemma for_loop_pure:
  "(\<And>s x. x \<in> set xs \<Longrightarrow> body s x = Inr (g s x)) \<Longrightarrow> for_loop body s xs = Inr (foldl g s xs)"
  by (induction xs arbitrary: s) simp_all

lemma str_split_not_Nil: "str_split sep s \<noteq> []"
  by (induction sep s rule: str_split.induct) (auto split: list.splits)

lemma str_split_single_Cons:
  "str_split [a] (c # cs) =
     (if c = a then [] # str_split [a] cs
      else (case str_split [a] cs of [] \<Rightarrow> [[c]] | p # ps \<Rightarrow> (c # p) # ps))"
  by auto

lemma in_str_split_single:
  "c \<noteq> a \<Longrightarrow> (\<exists>l \<in> set (str_split [a] s). c \<in> set l) \<longleftrightarrow> c \<in> set s"
proof (induction s)
  case Nil
  then show ?case by simp
next
  case (Cons x s)
  obtain p ps where sp: "str_split [a] s = p # ps"
    using str_split_not_Nil [of "[a]" s] by (cases "str_split [a] s") auto
  from Cons sp show ?case
    by (auto simp: str_split_single_Cons simp del: str_split.simps)
qed

lemma in_dropWhile: "\<not> P c \<Longrightarrow> c \<in> set (dropWhile P s) \<longleftrightarrow> c \<in> set s"
  by (induction s) auto

lemma in_str_strip: "\<not> isspace c \<Longrightarrow> c \<in> set (str_strip s) \<longleftrightarrow> c \<in> set s"
  by (simp add: str_strip_def in_dropWhile)

lemma str_split_max_0: "str_split_max sep 0 s = [s]"
  by (cases s) simp_all

lemma str_split_max_first:
  "c \<in> set line \<Longrightarrow>
     str_split_max c (Suc 0) line =
       [takeWhile (\<lambda>x. x \<noteq> c) line, tl (dropWhile (\<lambda>x. x \<noteq> c) line)]"
  by (induction line) (auto simp: str_split_max_0)

lemma not_isspace_COLON: "\<not> isspace COLON"
  by (simp add: isspace_def)

lemma isspace_NL: "isspace NL"
  by (simp add: isspace_def)

subsection \<open>The verbose parser raises nothing\<close>

lemma parse_line_set_field: "parse_line driver line = Inr (set_field driver line)"
  by (simp add: parse_line_def set_field_def line_key_def line_value_def
      str_split_max_first Let_def)

lemma build_driver_foldl: "build_driver block = Inr (driver_of block)"
  unfolding build_driver_def driver_of_def
  by (rule for_loop_pure) (rule parse_line_set_field)

lemma update_not_Nil: "AList.update k v d \<noteq> []"
  by (cases d) auto

lemma foldl_set_field_Nil:
  "foldl set_field d ls = [] \<longleftrightarrow> d = [] \<and> (\<forall>l \<in> set ls. COLON \<notin> set l)"
  by (induction ls arbitrary: d) (auto simp: set_field_def update_not_Nil)

lemma has_colon_line_iff: "has_colon_line block \<longleftrightarrow> COLON \<in> set block"
  unfolding has_colon_line_def list_ex_iff
  by (rule in_str_split_single) simp

lemma driver_of_Nil_iff: "driver_of block = [] \<longleftrightarrow> \<not> has_colon_line block"
proof -
  have "(\<exists>l \<in> set (str_split [NL] (str_strip block)). COLON \<in> set l)
      \<longleftrightarrow> COLON \<in> set (str_strip block)"
    by (rule in_str_split_single) simp
  then show ?thesis
    by (auto simp: driver_of_def foldl_set_field_Nil has_colon_line_iff
        in_str_strip not_isspace_COLON)
qed

lemma parse_record_eq:
  "parse_record drivers block =
     Inr (drivers @ (if has_colon_line block then [driver_of block] else []))"
  by (simp add: parse_record_def build_driver_foldl driver_of_Nil_iff)

lemma for_loop_parse_record:
  "for_loop parse_record drivers blocks =
     Inr (drivers @ map driver_of (filter has_colon_line blocks))"
  by (induction blocks arbitrary: drivers) (simp_all add: parse_record_eq)

lemma map_of_foldl_set_field:
  "map_of (foldl set_field d ls) k =
     (let writes = [l \<leftarrow> ls. COLON \<in> set l \<and> line_key l = k]
      in if writes = [] then map_of d k else Some (line_value (last writes)))"
proof (induction ls rule: rev_induct)
  case Nil
  then show ?case by simp
next
  case (snoc l ls)
  then show ?case
    by (cases "COLON \<in> set l \<and> line_key l = k")
       (auto simp: set_field_def update_conv' Let_def)
qed

subsection \<open>The signed-status parser raises nothing\<close>

lemma list_index_first: "x \<in> set xs \<Longrightarrow> list_index xs x = Inr (int (first_index xs x))"
  by (induction xs) (auto simp: first_index_def)

lemma list_get_nat: "i < length xs \<Longrightarrow> list_get xs (int i) = Inr (xs ! i)"
  by (simp add: list_get_def)

lemma length_clean_fields: "length (clean_fields line) = length (str_split [COMMA] line)"
  by (simp add: clean_fields_def)

lemma process_row_eq:
  "process_row (int i) acc line =
     Inr (acc @ (if str_strip line \<noteq> [] \<and> selected i (str_split [COMMA] line)
                 then [device_name_of (str_split [COMMA] line)] else []))"
proof -
  let ?raw = "str_split [COMMA] line"
  have ne: "?raw \<noteq> []" by (rule str_split_not_Nil)
  then have zero: "list_get (clean_fields line) 0 = Inr (device_name_of ?raw)"
    using list_get_nat [of 0 "clean_fields line"]
    by (simp add: length_clean_fields clean_fields_def device_name_of_def hd_conv_nth)
  show ?thesis
  proof (cases "i < length ?raw")
    case True
    then have "list_get (clean_fields line) (int i) = Inr (clean_field (?raw ! i))"
      using list_get_nat [of i "clean_fields line"]
      by (simp add: length_clean_fields clean_fields_def)
    with True zero show ?thesis
      by (simp add: process_row_def selected_def length_clean_fields Let_def)
  next
    case False
    then show ?thesis
      by (simp add: process_row_def selected_def length_clean_fields Let_def)
  qed
qed

lemma for_loop_process_row:
  "for_loop (process_row (int i)) acc ls =
     Inr (acc @ map device_name_of
            [raw \<leftarrow> map (str_split [COMMA]) [l \<leftarrow> ls. str_strip l \<noteq> []]. selected i raw])"
  by (induction ls arbitrary: acc) (simp_all add: process_row_eq)

lemma rows_loop:
  "for_loop (process_row (int i)) [] (drop (Suc 0) (str_split [NL] (str_strip s))) =
     Inr (unsigned_at i s)"
  by (simp add: for_loop_process_row unsigned_at_def raw_rows_def)

lemma find_is_signed_index_eq:
  "find_is_signed_index header =
     Inr (if ''IsSigned'' \<in> set header then int (first_index header ''IsSigned'')
          else if esta_firmado \<in> set header then int (first_index header esta_firmado)
          else - 1)"
  by (simp add: find_is_signed_index_def list_index_first)

lemma str_strip_Nil: "str_strip [] = []"
  by (simp add: str_strip_def)

lemma parse_signed_short:
  "length (str_split [NL] (str_strip s)) < 2 \<Longrightarrow>
     parse_signed_driver_output (Some s) = Inr ([], [])"
  by (simp add: parse_signed_driver_output_def Let_def)

lemma parse_signed_closed:
  assumes "2 \<le> length (str_split [NL] (str_strip s))"
  shows "parse_signed_driver_output (Some s) =
     Inr (if ''IsSigned'' \<notin> set (header_of s) \<and> esta_firmado \<notin> set (header_of s)
          then [warning_text] else [],
          case signed_column (header_of s) of None \<Rightarrow> [] | Some i \<Rightarrow> unsigned_at i s)"
proof -
  let ?lines = "str_split [NL] (str_strip s)"
  from assms have "s \<noteq> []"
    by (auto simp: str_strip_Nil)
  moreover from assms have "list_get ?lines 0 = Inr (hd ?lines)"
    using list_get_nat [of 0 ?lines] by (cases ?lines) simp_all
  moreover have "for_loop (process_row 1) [] (drop (Suc 0) ?lines) = Inr (unsigned_at (Suc 0) s)"
    using rows_loop [of "Suc 0" s] by simp
  ultimately show ?thesis
    using assms
    by (simp add: parse_signed_driver_output_def Let_def header_of_def
        find_is_signed_index_eq signed_column_def rows_loop)
qed

lemma parse_signed_total:
  "\<exists>w r. parse_signed_driver_output output = Inr (w, r)"
proof (cases "output")
  case None
  then show ?thesis by (simp add: parse_signed_driver_output_def)
next
  case (Some s)
  then show ?thesis
    using parse_signed_short [of s] parse_signed_closed [of s]
    by (cases "length (str_split [NL] (str_strip s)) < 2") auto
qed

lemma DQ_not_in_clean_field: "DQ \<notin> set (clean_field p)"
  by (auto simp: clean_field_def str_replace_def)

subsection \<open>Lines with no comma inside quotes\<close>





subsection \<open>Separators of more than two newlines\<close>

lemma str_split_nn_Cons2:
  "str_split [NL, NL] (c # d # cs) =
     (if c = NL \<and> d = NL then [] # str_split [NL, NL] cs
      else (case str_split [NL, NL] (d # cs) of [] \<Rightarrow> [[c]] | p # ps \<Rightarrow> (c # p) # ps))"
  by (subst str_split.simps) (auto simp del: str_split.simps)

lemma str_split_nn_single: "str_split [NL, NL] [c] = [[c]]"
  by simp

lemma str_strip_NL_Cons: "str_strip (NL # p) = str_strip p"
  by (simp add: str_strip_def isspace_NL)

lemma nonblank_Cons_NL:
  "nonblank ((NL # p) # ps) = nonblank (p # ps)"
  by (simp add: nonblank_def str_strip_NL_Cons)

lemma nonblank_Nil_Cons: "nonblank ([] # ps) = nonblank ps"
  by (simp add: nonblank_def str_strip_Nil)

lemma nonblank_leading_NL:
  "nonblank (str_split [NL, NL] (NL # B)) = nonblank (str_split [NL, NL] B)"
proof (induction B rule: induct_list012)
  case 1
  show ?case by (simp add: nonblank_def str_strip_def isspace_NL)
next
  case (2 c)
  show ?case
    by (cases "c = NL") (simp_all add: nonblank_def str_strip_def isspace_NL)
next
  case (3 c d cs)
  obtain p ps where sp: "str_split [NL, NL] (c # d # cs) = p # ps"
    using str_split_not_Nil [of "[NL, NL]" "c # d # cs"]
    by (cases "str_split [NL, NL] (c # d # cs)") auto
  show ?case
  proof (cases "c = NL")
    case True
    have "str_split [NL, NL] (NL # c # d # cs) = [] # str_split [NL, NL] (d # cs)"
      using True by (simp only: str_split_nn_Cons2) simp
    then have "nonblank (str_split [NL, NL] (NL # c # d # cs)) = nonblank (str_split [NL, NL] (d # cs))"
      by (simp only: nonblank_Nil_Cons)
    also have "\<dots> = nonblank (str_split [NL, NL] (NL # d # cs))"
      using 3(2) by simp
    finally show ?thesis using True by simp
  next
    case False
    then have "str_split [NL, NL] (NL # c # d # cs) = (NL # p) # ps"
      using sp by (simp only: str_split_nn_Cons2 [of NL c]) simp
    then show ?thesis
      using sp by (simp only: nonblank_Cons_NL)
  qed
qed


lemma nonblank_Cons: "nonblank (p # ps) = nonblank [p] @ nonblank ps"
  by (simp add: nonblank_def)

lemma nonblank_hd_tl:
  "xs \<noteq> [] \<Longrightarrow> ys \<noteq> [] \<Longrightarrow> hd xs = hd ys \<Longrightarrow> nonblank (tl xs) = nonblank (tl ys) \<Longrightarrow>
     nonblank xs = nonblank ys"
  by (cases xs; cases ys) (simp_all add: nonblank_def)

lemma widen_separator_step:
  "hd (str_split [NL, NL] (A @ NL # NL # NL # B)) = hd (str_split [NL, NL] (A @ NL # NL # B))
   \<and> nonblank (tl (str_split [NL, NL] (A @ NL # NL # NL # B)))
     = nonblank (tl (str_split [NL, NL] (A @ NL # NL # B)))"
proof (induction A rule: induct_list012)
  case 1
  have "str_split [NL, NL] (NL # NL # NL # B) = [] # str_split [NL, NL] (NL # B)"
    by (simp only: str_split_nn_Cons2) simp
  moreover have "str_split [NL, NL] (NL # NL # B) = [] # str_split [NL, NL] B"
    by (simp only: str_split_nn_Cons2) simp
  ultimately show ?case
    by (simp add: nonblank_leading_NL del: str_split.simps)
next
  case (2 c)
  have a: "str_split [NL, NL] (NL # NL # NL # B) = [] # str_split [NL, NL] (NL # B)"
    by (simp only: str_split_nn_Cons2) simp
  have b: "str_split [NL, NL] (NL # NL # B) = [] # str_split [NL, NL] B"
    by (simp only: str_split_nn_Cons2) simp
  show ?case
  proof (cases "c = NL")
    case True
    have "str_split [NL, NL] ([c] @ NL # NL # NL # B) = [] # [] # str_split [NL, NL] B"
      using True b by (simp only: append.simps str_split_nn_Cons2) simp
    moreover have "str_split [NL, NL] ([c] @ NL # NL # B) = [] # str_split [NL, NL] (NL # B)"
      using True by (simp only: append.simps str_split_nn_Cons2) simp
    ultimately show ?thesis
      by (simp add: nonblank_leading_NL nonblank_Nil_Cons del: str_split.simps)
  next
    case False
    have "str_split [NL, NL] ([c] @ NL # NL # NL # B) = [c] # str_split [NL, NL] (NL # B)"
      using False a by (simp only: append.simps str_split_nn_Cons2 [of c]) simp
    moreover have "str_split [NL, NL] ([c] @ NL # NL # B) = [c] # str_split [NL, NL] B"
      using False b by (simp only: append.simps str_split_nn_Cons2 [of c]) simp
    ultimately show ?thesis
      by (simp add: nonblank_leading_NL del: str_split.simps)
  qed
next
  case (3 c d cs)
  let ?X3 = "NL # NL # NL # B" and ?X2 = "NL # NL # B"
  show ?case
  proof (cases "c = NL \<and> d = NL")
    case True
    have e3: "str_split [NL, NL] ((c # d # cs) @ ?X3) = [] # str_split [NL, NL] (cs @ ?X3)"
      using True by (simp only: append.simps str_split_nn_Cons2) simp
    have e2: "str_split [NL, NL] ((c # d # cs) @ ?X2) = [] # str_split [NL, NL] (cs @ ?X2)"
      using True by (simp only: append.simps str_split_nn_Cons2) simp
    have "nonblank (str_split [NL, NL] (cs @ ?X3)) = nonblank (str_split [NL, NL] (cs @ ?X2))"
    proof (rule nonblank_hd_tl [OF str_split_not_Nil str_split_not_Nil])
      show "hd (str_split [NL, NL] (cs @ ?X3)) = hd (str_split [NL, NL] (cs @ ?X2))"
        using 3(1) by blast
      show "nonblank (tl (str_split [NL, NL] (cs @ ?X3))) = nonblank (tl (str_split [NL, NL] (cs @ ?X2)))"
        using 3(1) by blast
    qed
    with e3 e2 show ?thesis by (simp del: str_split.simps)
  next
    case False
    obtain p3 ps3 where s3: "str_split [NL, NL] ((d # cs) @ ?X3) = p3 # ps3"
      using str_split_not_Nil [of "[NL, NL]" "(d # cs) @ ?X3"]
      by (cases "str_split [NL, NL] ((d # cs) @ ?X3)") auto
    obtain p2 ps2 where s2: "str_split [NL, NL] ((d # cs) @ ?X2) = p2 # ps2"
      using str_split_not_Nil [of "[NL, NL]" "(d # cs) @ ?X2"]
      by (cases "str_split [NL, NL] ((d # cs) @ ?X2)") auto
    have e3: "str_split [NL, NL] ((c # d # cs) @ ?X3) = (c # p3) # ps3"
      using False s3 by (simp only: append.simps str_split_nn_Cons2 [of c d]) simp
    have e2: "str_split [NL, NL] ((c # d # cs) @ ?X2) = (c # p2) # ps2"
      using False s2 by (simp only: append.simps str_split_nn_Cons2 [of c d]) simp
    from 3(2) have "hd (p3 # ps3) = hd (p2 # ps2)" "nonblank (tl (p3 # ps3)) = nonblank (tl (p2 # ps2))"
      unfolding s3 s2 by blast+
    then have "p3 = p2" "nonblank ps3 = nonblank ps2"
      by simp_all
    with e3 e2 show ?thesis by (simp del: str_split.simps)
  qed
qed

lemma widen_separator_three:
  "nonblank (str_split [NL, NL] (A @ NL # NL # NL # B))
     = nonblank (str_split [NL, NL] (A @ NL # NL # B))"
  by (rule nonblank_hd_tl [OF str_split_not_Nil str_split_not_Nil
        widen_separator_step [THEN conjunct1] widen_separator_step [THEN conjunct2]])

lemma widen_separator:
  "nonblank (str_split [NL, NL] (A @ replicate (Suc (Suc m)) NL @ B))
     = nonblank (str_split [NL, NL] (A @ NL # NL # B))"
proof (induction m)
  case 0
  show ?case by (simp del: str_split.simps)
next
  case (Suc m)
  have "nonblank (str_split [NL, NL] (A @ NL # NL # NL # (replicate m NL @ B)))
      = nonblank (str_split [NL, NL] (A @ NL # NL # (replicate m NL @ B)))"
    by (rule widen_separator_three)
  with Suc show ?case by (simp del: str_split.simps)
qed


lemma dropWhile_isspace_append_blank:
  "\<forall>x \<in> set A. isspace x \<Longrightarrow> dropWhile isspace (A @ B) = dropWhile isspace B"
  by (rule dropWhile_append2) blast

lemma dropWhile_isspace_append_text:
  "\<not> (\<forall>x \<in> set A. isspace x) \<Longrightarrow> dropWhile isspace (A @ B) = dropWhile isspace A @ B"
  using dropWhile_append1 [of _ A isspace B] by blast

lemma str_strip_left_blank:
  assumes "\<forall>x \<in> set A. isspace x" and "\<forall>x \<in> set M. isspace x"
  shows "str_strip (A @ M @ B) = str_strip B"
proof -
  have "dropWhile isspace (A @ M @ B) = dropWhile isspace B"
    by (simp only: dropWhile_isspace_append_blank [OF assms(1)]
        dropWhile_isspace_append_blank [OF assms(2)])
  then show ?thesis by (simp only: str_strip_def)
qed

lemma str_strip_all_blank:
  assumes "\<forall>x \<in> set A. isspace x"
  shows "str_strip A = []"
proof -
  from assms have e: "dropWhile isspace A = []"
    by simp
  show ?thesis unfolding str_strip_def e by simp
qed

lemma str_strip_right_blank:
  assumes "\<forall>x \<in> set B. isspace x" and "\<forall>x \<in> set M. isspace x"
  shows "str_strip (A @ M @ B) = str_strip A"
proof (cases "\<forall>x \<in> set A. isspace x")
  case True
  with assms have "\<forall>x \<in> set (A @ M @ B). isspace x"
    by auto
  then have "str_strip (A @ M @ B) = []"
    by (rule str_strip_all_blank)
  with True show ?thesis
    by (simp only: str_strip_all_blank)
next
  case False
  have l: "dropWhile isspace (A @ M @ B) = dropWhile isspace A @ M @ B"
    by (rule dropWhile_isspace_append_text [OF False])
  have b: "\<forall>x \<in> set (rev B). isspace x" and m: "\<forall>x \<in> set (rev M). isspace x"
    using assms by simp_all
  have "dropWhile isspace (rev B @ rev M @ rev (dropWhile isspace A))
      = dropWhile isspace (rev (dropWhile isspace A))"
    by (simp only: dropWhile_isspace_append_blank [OF b] dropWhile_isspace_append_blank [OF m])
  then show ?thesis
    by (simp only: str_strip_def l rev_append append_assoc)
qed

lemma str_strip_middle:
  assumes "\<not> (\<forall>x \<in> set A. isspace x)" and "\<not> (\<forall>x \<in> set B. isspace x)"
  shows "str_strip (A @ M @ B) = dropWhile isspace A @ M @ rev (dropWhile isspace (rev B))"
proof -
  have l: "dropWhile isspace (A @ M @ B) = dropWhile isspace A @ M @ B"
    by (rule dropWhile_isspace_append_text [OF assms(1)])
  have b: "\<not> (\<forall>x \<in> set (rev B). isspace x)"
    using assms(2) by simp
  have "dropWhile isspace (rev B @ rev M @ rev (dropWhile isspace A))
      = dropWhile isspace (rev B) @ rev M @ rev (dropWhile isspace A)"
    by (rule dropWhile_isspace_append_text [OF b])
  then show ?thesis
    by (simp only: str_strip_def l rev_append append_assoc rev_rev_ident)
qed

lemma all_isspace_replicate_NL: "\<forall>x \<in> set (replicate n NL). isspace x"
  by (simp add: isspace_NL)

lemma widen_separator_stripped:
  "nonblank (str_split [NL, NL] (str_strip (A @ replicate (Suc (Suc m)) NL @ B)))
     = nonblank (str_split [NL, NL] (str_strip (A @ replicate (Suc (Suc 0)) NL @ B)))"
proof (cases "\<forall>x \<in> set A. isspace x")
  case True
  then show ?thesis
    by (simp only: str_strip_left_blank [OF _ all_isspace_replicate_NL])
next
  case notA: False
  show ?thesis
  proof (cases "\<forall>x \<in> set B. isspace x")
    case True
    then show ?thesis
      by (simp only: str_strip_right_blank [OF _ all_isspace_replicate_NL])
  next
    case False
    have "nonblank (str_split [NL, NL]
            (dropWhile isspace A @ replicate (Suc (Suc m)) NL @ rev (dropWhile isspace (rev B))))
        = nonblank (str_split [NL, NL]
            (dropWhile isspace A @ NL # NL # rev (dropWhile isspace (rev B))))"
      by (rule widen_separator)
    moreover have "replicate (Suc (Suc 0)) NL @ rev (dropWhile isspace (rev B))
        = NL # NL # rev (dropWhile isspace (rev B))"
      by simp
    ultimately show ?thesis
      by (simp only: str_strip_middle [OF notA False])
  qed
qed

lemma records_via_nonblank:
  "map driver_of (filter has_colon_line ss) =
     map (\<lambda>t. foldl set_field [] (str_split [NL] t)) [t \<leftarrow> nonblank ss. COLON \<in> set t]"
proof (induction ss)
  case Nil
  show ?case by (simp add: nonblank_def)
next
  case (Cons b ss)
  have "has_colon_line b \<longleftrightarrow> COLON \<in> set (str_strip b)"
    by (simp add: has_colon_line_iff in_str_strip not_isspace_COLON)
  moreover have "COLON \<in> set (str_strip b) \<Longrightarrow> str_strip b \<noteq> []"
    by auto
  ultimately show ?case
    using Cons by (auto simp: nonblank_def driver_of_def)
qed

lemma parse_driver_v_output_closed:
  "parse_driver_v_output (Some s) =
     Inr (map driver_of [b \<leftarrow> str_split [NL, NL] (str_strip s). has_colon_line b])"
proof -
  have "str_split [NL, NL] (str_strip []) = [[]]"
    by (simp add: str_strip_def)
  moreover have "\<not> has_colon_line []"
    by (simp add: has_colon_line_def)
  ultimately show ?thesis
    by (simp add: parse_driver_v_output_def for_loop_parse_record)
qed

lemma widen_separator_records:
  "map driver_of [b \<leftarrow> str_split [NL, NL] (str_strip (A @ replicate (Suc (Suc k)) NL @ B)).
       has_colon_line b]
   = map driver_of [b \<leftarrow> str_split [NL, NL] (str_strip (A @ [NL, NL] @ B)). has_colon_line b]"
proof -
  have "nonblank (str_split [NL, NL] (str_strip (A @ replicate (Suc (Suc k)) NL @ B)))
      = nonblank (str_split [NL, NL] (str_strip (A @ replicate (Suc (Suc 0)) NL @ B)))"
    by (rule widen_separator_stripped)
  moreover have "replicate (Suc (Suc 0)) NL = [NL, NL]"
    by simp
  ultimately have "nonblank (str_split [NL, NL] (str_strip (A @ replicate (Suc (Suc k)) NL @ B)))
      = nonblank (str_split [NL, NL] (str_strip (A @ [NL, NL] @ B)))"
    by (simp only:)
  then show ?thesis
    unfolding records_via_nonblank by (rule arg_cong)
qed

lemma no_empty_record:
  "[] \<notin> set (map driver_of [b \<leftarrow> blocks. has_colon_line b])"
proof
  assume "[] \<in> set (map driver_of [b \<leftarrow> blocks. has_colon_line b])"
  then obtain b where "has_colon_line b" and "driver_of b = []"
    by auto
  then show False
    by (simp add: driver_of_Nil_iff)
qed

lemma str_of_nat_0: "str_of_nat 0 = ''0''"
  by code_simp

section \<open>The filter selects the stopped drivers\<close>

text \<open>
  C1. The filter of \<open>main\<close> keeps, in order, exactly the records that have a \<open>State\<close>
  field whose lower-cased value is \<open>stopped\<close>. Every record kept has such a field, and
  a record with no \<open>State\<close> field is left out: its lookup gives the empty string, and
  nothing is raised.
\<close>

theorem stopped_drivers_select:
  "stopped_drivers ds =
     [d \<leftarrow> ds. case map_of d ''State'' of
                  None \<Rightarrow> False
                | Some v \<Rightarrow> str_lower v = ''stopped'']
   \<and> (\<forall>d \<in> set (stopped_drivers ds).
         \<exists>v. map_of d ''State'' = Some v \<and> str_lower v = ''stopped'')
   \<and> (\<forall>d \<in> set ds. map_of d ''State'' = None \<longrightarrow> d \<notin> set (stopped_drivers ds))"
proof -
  have "str_lower [] \<noteq> ''stopped''"
    by (simp add: str_lower_def)
  then have eq: "str_lower (dict_get d ''State'' []) = ''stopped'' \<longleftrightarrow>
      (case map_of d ''State'' of None \<Rightarrow> False | Some v \<Rightarrow> str_lower v = ''stopped'')" for d
    by (simp add: dict_get_def split: option.splits)
  show ?thesis
    by (auto simp: stopped_drivers_def eq split: option.splits)
qed

theorem stopped_drivers_select_witness:
  "stopped_drivers
     [[(''ModuleName'', ''ACPI''), (''State'', ''Stopped'')],
      [(''ModuleName'', ''Beep'')],
      [(''ModuleName'', ''Null''), (''State'', ''Running'')],
      [(''State'', ''STOPPED'')]]
   = [[(''ModuleName'', ''ACPI''), (''State'', ''Stopped'')], [(''State'', ''STOPPED'')]]
   \<and> [(''ModuleName'', ''Beep'')] \<notin> set (stopped_drivers
       [[(''ModuleName'', ''ACPI''), (''State'', ''Stopped'')],
        [(''ModuleName'', ''Beep'')],
        [(''ModuleName'', ''Null''), (''State'', ''Running'')],
        [(''State'', ''STOPPED'')]])"
proof -
  let ?ds = "[[(''ModuleName'', ''ACPI''), (''State'', ''Stopped'')],
      [(''ModuleName'', ''Beep'')],
      [(''ModuleName'', ''Null''), (''State'', ''Running'')],
      [(''State'', ''STOPPED'')]]"
  have a: "str_lower ''Stopped'' = ''stopped''" by code_simp
  have b: "str_lower ''STOPPED'' = ''stopped''" by code_simp
  have c: "str_lower ''Running'' \<noteq> ''stopped''" by code_simp
  have m: "[(''ModuleName'', ''Beep'')] \<in> set ?ds" by simp
  have n: "map_of [(''ModuleName'', ''Beep'')] ''State'' = None" by simp
  from stopped_drivers_select [of ?ds] have
    e: "stopped_drivers ?ds = [d \<leftarrow> ?ds. case map_of d ''State'' of
          None \<Rightarrow> False | Some v \<Rightarrow> str_lower v = ''stopped'']"
    and f: "\<forall>d \<in> set ?ds. map_of d ''State'' = None \<longrightarrow> d \<notin> set (stopped_drivers ?ds)"
    by blast+
  from f m n have "[(''ModuleName'', ''Beep'')] \<notin> set (stopped_drivers ?ds)" by blast
  moreover from e a b c have "stopped_drivers ?ds
      = [[(''ModuleName'', ''ACPI''), (''State'', ''Stopped'')], [(''State'', ''STOPPED'')]]"
    by simp
  ultimately show ?thesis by blast
qed

section \<open>The verbose parser\<close>

text \<open>
  C2. The parser returns one record for each block that holds a line with a colon, in
  the order of the blocks, so the number of records is the number of such blocks. A
  missing or empty output gives the empty list, a block with no such line adds nothing,
  and no record returned is empty. The blocks are the pieces of the stripped output
  between occurrences of two newlines.
\<close>

theorem parse_driver_v_output_count:
  "parse_driver_v_output None = Inr []
   \<and> parse_driver_v_output (Some []) = Inr []
   \<and> (\<exists>drivers. parse_driver_v_output (Some s) = Inr drivers
         \<and> drivers = map driver_of [b \<leftarrow> str_split [NL, NL] (str_strip s). has_colon_line b]
         \<and> length drivers = length [b \<leftarrow> str_split [NL, NL] (str_strip s). has_colon_line b]
         \<and> [] \<notin> set drivers)
   \<and> parse_record ds block = Inr (if has_colon_line block then ds @ [driver_of block] else ds)"
proof -
  have "str_split [NL, NL] (str_strip []) = [[]]"
    by (simp add: str_strip_def)
  moreover have "\<not> has_colon_line []"
    by (simp add: has_colon_line_def)
  ultimately have "parse_driver_v_output (Some s)
      = Inr (map driver_of [b \<leftarrow> str_split [NL, NL] (str_strip s). has_colon_line b])"
    by (simp add: parse_driver_v_output_def for_loop_parse_record)
  moreover have "[] \<notin> set (map driver_of [b \<leftarrow> str_split [NL, NL] (str_strip s). has_colon_line b])"
    using driver_of_Nil_iff by fastforce
  ultimately show ?thesis
    by (simp add: parse_driver_v_output_def parse_record_eq)
qed

theorem parse_driver_v_output_count_witness:
  "parse_driver_v_output
     (Some ''Module Name: ACPI\<newline>State: Stopped\<newline>\<newline>no fields here\<newline>\<newline>Module Name: Beep\<newline>'')
   = Inr [[(''ModuleName'', ''ACPI''), (''State'', ''Stopped'')], [(''ModuleName'', ''Beep'')]]"
proof -
  let ?s = "''Module Name: ACPI\<newline>State: Stopped\<newline>\<newline>no fields here\<newline>\<newline>Module Name: Beep\<newline>''"
  have "map driver_of [b \<leftarrow> str_split [NL, NL] (str_strip ?s). has_colon_line b]
     = [[(''ModuleName'', ''ACPI''), (''State'', ''Stopped'')], [(''ModuleName'', ''Beep'')]]"
    by code_simp
  with parse_driver_v_output_count [of ?s] show ?thesis by auto
qed

text \<open>
  C6. A line with no colon leaves the dictionary as it is. A line with a colon stores,
  under the text before the first colon (stripped, then looked up in the table), the
  text after the first colon (stripped). The loop over a block raises nothing, and the
  value it leaves under a key is the value of the last line that wrote that key.
\<close>

theorem parse_line_first_colon:
  "(COLON \<notin> set line \<longrightarrow> parse_line driver line = Inr driver)
   \<and> (COLON \<in> set line \<longrightarrow>
        parse_line driver line =
          Inr (AList.update
                 (let key = str_strip (takeWhile (\<lambda>c. c \<noteq> COLON) line)
                  in dict_get header_map key key)
                 (str_strip (tl (dropWhile (\<lambda>c. c \<noteq> COLON) line)))
                 driver))
   \<and> build_driver block = Inr (driver_of block)
   \<and> map_of (driver_of block) k =
        (let writes = [l \<leftarrow> str_split [NL] (str_strip block). COLON \<in> set l \<and> line_key l = k]
         in if writes = [] then None else Some (line_value (last writes)))"
proof -
  have "map_of (driver_of block) k =
        (let writes = [l \<leftarrow> str_split [NL] (str_strip block). COLON \<in> set l \<and> line_key l = k]
         in if writes = [] then None else Some (line_value (last writes)))"
    unfolding driver_of_def by (simp add: map_of_foldl_set_field Let_def)
  then show ?thesis
    by (simp add: parse_line_set_field set_field_def line_key_def line_value_def
        build_driver_foldl)
qed

theorem parse_line_first_colon_witness:
  "parse_line [(''State'', ''Running'')] ''no colon here'' = Inr [(''State'', ''Running'')]
   \<and> parse_line [(''State'', ''Running'')] ''Estado : Stopped: now '' =
       Inr [(''State'', ''Stopped: now'')]
   \<and> build_driver ''State: Running\<newline>Module Name: ACPI\<newline>Estado: Stopped'' =
       Inr [(''State'', ''Stopped''), (''ModuleName'', ''ACPI'')]
   \<and> map_of (driver_of ''State: Running\<newline>Module Name: ACPI\<newline>Estado: Stopped'') ''State'' =
       Some ''Stopped''"
proof -
  let ?l1 = "''no colon here''" and ?l2 = "''Estado : Stopped: now ''"
  let ?b = "''State: Running\<newline>Module Name: ACPI\<newline>Estado: Stopped''"
  let ?d = "[(''State'', ''Running'')]"
  have h1: "COLON \<notin> set ?l1" by simp
  have h2: "COLON \<in> set ?l2" by simp
  have e2: "AList.update
                 (let key = str_strip (takeWhile (\<lambda>c. c \<noteq> COLON) ?l2)
                  in dict_get header_map key key)
                 (str_strip (tl (dropWhile (\<lambda>c. c \<noteq> COLON) ?l2)))
                 ?d = [(''State'', ''Stopped: now'')]"
    by code_simp
  have e3: "driver_of ?b = [(''State'', ''Stopped''), (''ModuleName'', ''ACPI'')]"
    by code_simp
  have e4: "(let writes = [l \<leftarrow> str_split [NL] (str_strip ?b). COLON \<in> set l \<and> line_key l = ''State'']
         in if writes = [] then None else Some (line_value (last writes))) = Some ''Stopped''"
    by code_simp
  from parse_line_first_colon [of ?l1 ?d ?b "''State''"] h1
  have "parse_line ?d ?l1 = Inr ?d" by blast
  moreover from parse_line_first_colon [of ?l2 ?d ?b "''State''"] h2 e2
  have "parse_line ?d ?l2 = Inr [(''State'', ''Stopped: now'')]" by presburger
  moreover from parse_line_first_colon [of ?l2 ?d ?b "''State''"] e3
  have "build_driver ?b = Inr [(''State'', ''Stopped''), (''ModuleName'', ''ACPI'')]" by presburger
  moreover from parse_line_first_colon [of ?l2 ?d ?b "''State''"] e4
  have "map_of (driver_of ?b) ''State'' = Some ''Stopped''" by presburger
  ultimately show ?thesis by blast
qed

text \<open>
  C10. A run of two or more newlines between two parts of the output gives the same
  records whatever its length: widening a separator of one blank line to two blank
  lines or more changes nothing. No record returned is empty, for any output.
\<close>

theorem wide_separators_same_records:
  "(2 \<le> m \<longrightarrow>
      parse_driver_v_output (Some (A @ replicate m NL @ B))
        = parse_driver_v_output (Some (A @ [NL, NL] @ B)))
   \<and> (\<exists>drivers. parse_driver_v_output output = Inr drivers \<and> [] \<notin> set drivers)"
proof (rule conjI)
  show "2 \<le> m \<longrightarrow>
      parse_driver_v_output (Some (A @ replicate m NL @ B))
        = parse_driver_v_output (Some (A @ [NL, NL] @ B))"
  proof (rule impI)
    assume "2 \<le> m"
    then have "m = Suc (Suc (m - 2))"
      by arith
    then obtain k where m: "m = Suc (Suc k)" ..
    show "parse_driver_v_output (Some (A @ replicate m NL @ B))
        = parse_driver_v_output (Some (A @ [NL, NL] @ B))"
      unfolding m parse_driver_v_output_closed
      by (rule arg_cong [OF widen_separator_records])
  qed
next
  show "\<exists>drivers. parse_driver_v_output output = Inr drivers \<and> [] \<notin> set drivers"
  proof (cases "output")
    case None
    have "parse_driver_v_output None = Inr []"
      by (simp add: parse_driver_v_output_def)
    with None show ?thesis by simp
  next
    case (Some s)
    show ?thesis
      unfolding Some parse_driver_v_output_closed
      using no_empty_record by (intro exI conjI) (rule refl)
  qed
qed

theorem wide_separators_same_records_witness:
  "parse_driver_v_output
     (Some ''Module Name: ACPI\<newline>State: Stopped\<newline>\<newline>\<newline>\<newline>Module Name: Beep'')
   = parse_driver_v_output
     (Some ''Module Name: ACPI\<newline>State: Stopped\<newline>\<newline>Module Name: Beep'')
   \<and> parse_driver_v_output
     (Some ''Module Name: ACPI\<newline>State: Stopped\<newline>\<newline>\<newline>\<newline>Module Name: Beep'')
   = Inr [[(''ModuleName'', ''ACPI''), (''State'', ''Stopped'')], [(''ModuleName'', ''Beep'')]]"
proof -
  let ?A = "''Module Name: ACPI\<newline>State: Stopped''" and ?B = "''Module Name: Beep''"
  have h: "(2::nat) \<le> 4" by simp
  have w: "?A @ replicate 4 NL @ ?B
      = ''Module Name: ACPI\<newline>State: Stopped\<newline>\<newline>\<newline>\<newline>Module Name: Beep''"
    by code_simp
  have n: "?A @ [NL, NL] @ ?B
      = ''Module Name: ACPI\<newline>State: Stopped\<newline>\<newline>Module Name: Beep''"
    by simp
  have v: "parse_driver_v_output
     (Some ''Module Name: ACPI\<newline>State: Stopped\<newline>\<newline>Module Name: Beep'')
   = Inr [[(''ModuleName'', ''ACPI''), (''State'', ''Stopped'')], [(''ModuleName'', ''Beep'')]]"
    by code_simp
  from wide_separators_same_records [of 4 ?A ?B None] h
  have "parse_driver_v_output (Some (?A @ replicate 4 NL @ ?B))
        = parse_driver_v_output (Some (?A @ [NL, NL] @ ?B))"
    by blast
  then have "parse_driver_v_output
     (Some ''Module Name: ACPI\<newline>State: Stopped\<newline>\<newline>\<newline>\<newline>Module Name: Beep'')
   = parse_driver_v_output
     (Some ''Module Name: ACPI\<newline>State: Stopped\<newline>\<newline>Module Name: Beep'')"
    unfolding w n .
  with v show ?thesis by simp
qed

section \<open>The signed-status parser\<close>




text \<open>
  A comma inside a quoted field is taken by the parser for a separator, although the
  docstring calls the input CSV: the row \<open>"Intel, Corp","False"\<close> is not returned, and
  the row \<open>"Foo, false","True"\<close> is returned under the name \<open>Foo\<close>. The theorem on the
  rows selected is about tables with no such line, and says nothing of these.
\<close>

lemma quoted_comma_rows:
  \<open>csv_fields ''"Intel, Corp","False"'' = [''"Intel, Corp"'', ''"False"'']
   \<and> parse_signed_driver_output (Some ''Name,IsSigned\<newline>"Intel, Corp","False"'') = Inr ([], [])
   \<and> csv_fields ''"Foo, false","True"'' = [''"Foo, false"'', ''"True"'']
   \<and> parse_signed_driver_output (Some ''Name,IsSigned\<newline>"Foo, false","True"'')
       = Inr ([], [''Foo''])\<close>
  by code_simp

text \<open>
  C4. When the table has at least two lines and neither \<open>IsSigned\<close> nor the Spanish label
  is a field of its cleaned header row, the parser prints the warning and goes on: with
  two header columns or more it reads the signature from column 1, with fewer it
  returns the empty list. Nothing is raised in either case. A table of fewer than two
  lines is returned empty before the header is looked at, with no warning.
\<close>

theorem signed_header_fallback:
  "(2 \<le> length (str_split [NL] (str_strip s))
      \<and> ''IsSigned'' \<notin> set (clean_fields (hd (str_split [NL] (str_strip s))))
      \<and> esta_firmado \<notin> set (clean_fields (hd (str_split [NL] (str_strip s))))
    \<longrightarrow> parse_signed_driver_output (Some s) =
          Inr ([warning_text],
               if 1 < length (clean_fields (hd (str_split [NL] (str_strip s))))
               then unsigned_at 1 s else []))
   \<and> (length (str_split [NL] (str_strip s)) < 2
    \<longrightarrow> parse_signed_driver_output (Some s) = Inr ([], []))"
  using parse_signed_closed [of s] parse_signed_short [of s]
  by (simp add: header_of_def signed_column_def)

theorem signed_header_fallback_witness:
  \<open>parse_signed_driver_output (Some ''Name,Signed\<newline>"dev1","False"\<newline>"dev2","True"'')
     = Inr ([warning_text], [''dev1''])
   \<and> parse_signed_driver_output (Some ''Name\<newline>"dev1","False"\<newline>"dev2","True"'')
     = Inr ([warning_text], [])
   \<and> parse_signed_driver_output (Some ''Name,IsSigned'') = Inr ([], [])\<close>
proof -
  let ?s = \<open>''Name,Signed\<newline>"dev1","False"\<newline>"dev2","True"''\<close>
  let ?t = \<open>''Name\<newline>"dev1","False"\<newline>"dev2","True"''\<close>
  let ?u = "''Name,IsSigned''"
  have s1: "2 \<le> length (str_split [NL] (str_strip ?s))" by code_simp
  have s2: "''IsSigned'' \<notin> set (clean_fields (hd (str_split [NL] (str_strip ?s))))"
    by code_simp
  have s3: "esta_firmado \<notin> set (clean_fields (hd (str_split [NL] (str_strip ?s))))"
    by code_simp
  have s4: "(if 1 < length (clean_fields (hd (str_split [NL] (str_strip ?s))))
          then unsigned_at 1 ?s else []) = [''dev1'']"
    by code_simp
  have t1: "2 \<le> length (str_split [NL] (str_strip ?t))" by code_simp
  have t2: "''IsSigned'' \<notin> set (clean_fields (hd (str_split [NL] (str_strip ?t))))"
    by code_simp
  have t3: "esta_firmado \<notin> set (clean_fields (hd (str_split [NL] (str_strip ?t))))"
    by code_simp
  have t4: "(if 1 < length (clean_fields (hd (str_split [NL] (str_strip ?t))))
          then unsigned_at 1 ?t else []) = []"
    by code_simp
  have u1: "length (str_split [NL] (str_strip ?u)) < 2" by code_simp
  from signed_header_fallback [of ?s] s1 s2 s3
  have "parse_signed_driver_output (Some ?s) =
      Inr ([warning_text],
           if 1 < length (clean_fields (hd (str_split [NL] (str_strip ?s))))
           then unsigned_at 1 ?s else [])"
    by blast
  with s4 have a: "parse_signed_driver_output (Some ?s) = Inr ([warning_text], [''dev1''])"
    by simp
  from signed_header_fallback [of ?t] t1 t2 t3
  have "parse_signed_driver_output (Some ?t) =
      Inr ([warning_text],
           if 1 < length (clean_fields (hd (str_split [NL] (str_strip ?t))))
           then unsigned_at 1 ?t else [])"
    by blast
  with t4 have b: "parse_signed_driver_output (Some ?t) = Inr ([warning_text], [])"
    by simp
  from signed_header_fallback [of ?u] u1
  have c: "parse_signed_driver_output (Some ?u) = Inr ([], [])"
    by blast
  from a b c show ?thesis by blast
qed

text \<open>A table that is a header row alone, with no known label in it, gives no warning.\<close>

theorem header_only_no_warning_counterexample:
  "''IsSigned'' \<notin> set (clean_fields ''Name,Signed'')
   \<and> esta_firmado \<notin> set (clean_fields ''Name,Signed'')
   \<and> parse_signed_driver_output (Some ''Name,Signed'') = Inr ([], [])"
  by code_simp

text \<open>
  C5. The stopped records are a subsequence of the parsed records, and the unsigned
  device names are a subsequence of the device names of the rows: each result is its
  source list filtered by a test on the single element, so the order is that of the
  source and an element that occurs twice is kept twice.
\<close>

theorem results_keep_source_order:
  "subseq (stopped_drivers ds) ds
   \<and> (\<exists>keep. stopped_drivers ds = filter keep ds)
   \<and> (\<exists>w r. parse_signed_driver_output (Some s) = Inr (w, r)
         \<and> subseq r (map device_name_of (raw_rows s))
         \<and> (\<exists>keep. r = map device_name_of (filter keep (raw_rows s))))"
proof -
  have a: "subseq (stopped_drivers ds) ds"
    by (simp add: stopped_drivers_def)
  have b: "\<exists>keep. stopped_drivers ds = filter keep ds"
    unfolding stopped_drivers_def by blast
  have c: "\<exists>w r. parse_signed_driver_output (Some s) = Inr (w, r)
         \<and> (\<exists>keep. r = map device_name_of (filter keep (raw_rows s)))"
  proof (cases "length (str_split [NL] (str_strip s)) < 2")
    case True
    have "[] = map device_name_of (filter (\<lambda>_. False) (raw_rows s))" by simp
    with True show ?thesis
      using parse_signed_short [of s] by blast
  next
    case False
    then have two: "2 \<le> length (str_split [NL] (str_strip s))" by simp
    show ?thesis
    proof (cases "signed_column (header_of s)")
      case None
      then obtain w where "parse_signed_driver_output (Some s) = Inr (w, [])"
        using parse_signed_closed [OF two] by simp
      moreover have "[] = map device_name_of (filter (\<lambda>_. False) (raw_rows s))" by simp
      ultimately show ?thesis by blast
    next
      case (Some i)
      then obtain w where "parse_signed_driver_output (Some s) = Inr (w, unsigned_at i s)"
        using parse_signed_closed [OF two] by simp
      moreover have "unsigned_at i s = map device_name_of (filter (selected i) (raw_rows s))"
        by (simp add: unsigned_at_def)
      ultimately show ?thesis by blast
    qed
  qed
  then obtain w r keep where p: "parse_signed_driver_output (Some s) = Inr (w, r)"
    and k: "r = map device_name_of (filter keep (raw_rows s))"
    by blast
  have "subseq r (map device_name_of (raw_rows s))"
    unfolding k by (simp add: subseq_map)
  with p k a b show ?thesis by blast
qed

theorem results_keep_source_order_witness:
  \<open>subseq [[(''State'', ''Stopped'')], [(''State'', ''Stopped'')]]
      [[(''State'', ''Stopped'')], [(''State'', ''Running'')], [(''State'', ''Stopped'')]]
   \<and> parse_signed_driver_output
       (Some ''Name,IsSigned\<newline>zeta,False\<newline>alpha,False\<newline>mid,True\<newline>zeta,False'')
     = Inr ([], [''zeta'', ''alpha'', ''zeta''])\<close>
proof -
  let ?ds = "[[(''State'', ''Stopped'')], [(''State'', ''Running'')], [(''State'', ''Stopped'')]]"
  let ?s = \<open>''Name,IsSigned\<newline>zeta,False\<newline>alpha,False\<newline>mid,True\<newline>zeta,False''\<close>
  have e: "stopped_drivers ?ds = [[(''State'', ''Stopped'')], [(''State'', ''Stopped'')]]"
    by code_simp
  have f: "parse_signed_driver_output (Some ?s) = Inr ([], [''zeta'', ''alpha'', ''zeta''])"
    by code_simp
  from results_keep_source_order [of ?ds ?s] have "subseq (stopped_drivers ?ds) ?ds"
    by blast
  with e f show ?thesis by simp
qed

text \<open>
  C9. Every device name returned holds no double quote: it is the first field of its row,
  stripped of surrounding whitespace and then freed of every double quote, those inside
  the text included. Whitespace that stood inside the quotes stays in the name.
\<close>

theorem device_names_unquoted:
  assumes "parse_signed_driver_output (Some s) = Inr (w, r)"
    and "name \<in> set r"
  shows "DQ \<notin> set name
     \<and> (\<exists>raw \<in> set (raw_rows s). name = str_replace DQ [] (str_strip (hd raw)))"
proof -
  have "\<exists>raw \<in> set (raw_rows s). name = clean_field (hd raw)"
  proof (cases "length (str_split [NL] (str_strip s)) < 2")
    case True
    with assms show ?thesis
      using parse_signed_short [of s] by simp
  next
    case False
    then have two: "2 \<le> length (str_split [NL] (str_strip s))" by simp
    with assms show ?thesis
      using parse_signed_closed [OF two]
      by (auto simp: unsigned_at_def device_name_of_def split: option.splits)
  qed
  then show ?thesis
    using DQ_not_in_clean_field by (auto simp: clean_field_def)
qed

theorem device_names_unquoted_witness:
  \<open>DQ \<notin> set ''Realtek Audio''
   \<and> (\<exists>raw \<in> set (raw_rows ''Name,IsSigned\<newline> "Realtek "Audio"" ,"False"'').
         ''Realtek Audio'' = str_replace DQ [] (str_strip (hd raw)))\<close>
proof -
  let ?s = \<open>''Name,IsSigned\<newline> "Realtek "Audio"" ,"False"''\<close>
  have p: "parse_signed_driver_output (Some ?s) = Inr ([], [''Realtek Audio''])"
    by code_simp
  have m: "''Realtek Audio'' \<in> set [''Realtek Audio'']" by simp
  from device_names_unquoted [OF p m] show ?thesis .
qed

text \<open>A name that was quoted with padding inside the quotes keeps the padding.\<close>

theorem device_name_padding_counterexample:
  \<open>parse_signed_driver_output (Some ''Name,IsSigned\<newline>" dev1 ","False"'')
     = Inr ([], ['' dev1 ''])
   \<and> isspace (hd '' dev1 '') \<and> isspace (last '' dev1 '')\<close>
  by code_simp

section \<open>The report\<close>

text \<open>
  C7. A missing or empty output gives the empty list from both parsers; the filter of
  the empty list is empty; and the report written for two empty lists is the text
  below, with the two counts 0 and the two placeholder lines.
\<close>

theorem empty_outputs_report:
  "parse_driver_v_output None = Inr []
   \<and> parse_driver_v_output (Some []) = Inr []
   \<and> parse_signed_driver_output None = Inr ([], [])
   \<and> parse_signed_driver_output (Some []) = Inr ([], [])
   \<and> stopped_drivers [] = []
   \<and> generate_report files now [] [] report_path = Some (report_text now [] [])
   \<and> report_text now [] [] =
       concat (map (\<lambda>line. line @ [NL])
         [''Driver Analysis Report'',
          ''======================'',
          ''Generated on: '' @ now,
          [],
          ''--- Summary ---'',
          ''Found 0 stopped drivers.'',
          ''Found 0 unsigned drivers.'',
          ''Note: Not all stopped or unsigned drivers indicate a problem. This report is for informational purposes.'',
          [],
          ''--- Stopped Drivers ---'',
          ''No stopped drivers found.'',
          [],
          ''--- Unsigned Drivers ---'',
          ''No unsigned drivers found.'',
          [],
          ''--- Recommendations ---'',
          ''1. Check Windows Update for the latest official drivers.'',
          ''2. For specific hardware (e.g., graphics cards), visit the manufacturer''
            @ [CHR 0x27] @ ''s official website (NVIDIA, AMD, Intel).'',
          ''3. Do NOT download drivers from third-party websites.''])"
proof -
  have "report_text now [] [] =
       concat (map (\<lambda>line. line @ [NL])
         [''Driver Analysis Report'',
          ''======================'',
          ''Generated on: '' @ now,
          [],
          ''--- Summary ---'',
          ''Found 0 stopped drivers.'',
          ''Found 0 unsigned drivers.'',
          ''Note: Not all stopped or unsigned drivers indicate a problem. This report is for informational purposes.'',
          [],
          ''--- Stopped Drivers ---'',
          ''No stopped drivers found.'',
          [],
          ''--- Unsigned Drivers ---'',
          ''No unsigned drivers found.'',
          [],
          ''--- Recommendations ---'',
          ''1. Check Windows Update for the latest official drivers.'',
          ''2. For specific hardware (e.g., graphics cards), visit the manufacturer''
            @ [CHR 0x27] @ ''s official website (NVIDIA, AMD, Intel).'',
          ''3. Do NOT download drivers from third-party websites.''])"
    by (simp add: report_text_def str_of_nat_0)
  then show ?thesis
    by (simp add: parse_driver_v_output_def parse_signed_driver_output_def
        stopped_drivers_def generate_report_def)
qed

text \<open>
  C8. The report goes to the file \<open>report.txt\<close>, a path fixed in the function and taken
  relative to the working directory: the call creates that file or replaces its
  content, and leaves every other file as it was. The function has no parameter for
  the path.
\<close>

theorem generate_report_fixed_path:
  "generate_report files now stopped unsigned ''report.txt'' = Some (report_text now stopped unsigned)
   \<and> (\<forall>path. path \<noteq> ''report.txt'' \<longrightarrow>
         generate_report files now stopped unsigned path = files path)"
  by (simp add: generate_report_def report_path_def)

theorem generate_report_fixed_path_witness:
  "generate_report [''notes.txt'' \<mapsto> ''keep'', ''report.txt'' \<mapsto> ''old'']
       ''2025-01-01 00:00:00'' [] [''dev1''] ''report.txt''
     = Some (report_text ''2025-01-01 00:00:00'' [] [''dev1''])
   \<and> generate_report [''notes.txt'' \<mapsto> ''keep'', ''report.txt'' \<mapsto> ''old'']
       ''2025-01-01 00:00:00'' [] [''dev1''] ''notes.txt''
     = Some ''keep''"
proof -
  let ?files = "[''notes.txt'' \<mapsto> ''keep'', ''report.txt'' \<mapsto> ''old'']"
  have d: "''notes.txt'' \<noteq> ''report.txt''" by simp
  have f: "?files ''notes.txt'' = Some ''keep''" by simp
  from generate_report_fixed_path [of ?files "''2025-01-01 00:00:00''" "[]" "[''dev1'']"] d f
  show ?thesis by simp
qed

text \<open>No call of the function puts a file at another path, such as \<open>out.txt\<close>.\<close>

theorem generate_report_path_counterexample:
  "\<not> (\<exists>now stopped unsigned.
         generate_report Map.empty now stopped unsigned ''out.txt'' \<noteq> None)"
  by (simp add: generate_report_def report_path_def)

end
